theory Spec2Isabelle
  imports Main "HOL-Library.AList"
begin

section \<open>Data model\<close>

text \<open>
  Field values are \<^verbatim>\<open>unknown\<close> in the source; every value that reaches the engine
  comes out of \<^verbatim>\<open>JSON.parse\<close>, a MessagePack decode, or \<^verbatim>\<open>Date.now()\<close>, so the
  model takes the JSON value trees. Payload numbers are modelled by integers: the engine
  never computes with them, it only compares and copies them.

  A JavaScript object is modelled by its own enumerable properties, an association list
  in enumeration order, together with the fixed prototype \<^verbatim>\<open>Object.prototype\<close>. On own
  properties a read \<^verbatim>\<open>o[k]\<close> is \<open>map_of obj k\<close>, an assignment \<^verbatim>\<open>o[k] = v\<close> is
  \<^term>\<open>AList.update k v obj\<close> (an existing key keeps its place, a new key goes last),
  \<^verbatim>\<open>delete o[k]\<close> is \<^term>\<open>AList.delete k obj\<close> and \<^verbatim>\<open>Object.keys(o)\<close> is
  \<^term>\<open>map fst obj\<close>. Reads, truthiness tests and the \<^verbatim>\<open>in\<close> operator also see the
  members every object inherits from \<^verbatim>\<open>Object.prototype\<close>.
\<close>

datatype jsval =
    JNull
  | JBool bool
  | JNum int
  | JStr string
  | JArr "jsval list"
  | JObj "(string \<times> jsval) list"

type_synonym EntityState = "(string \<times> jsval) list"

type_synonym Entities = "(string \<times> EntityState) list"

text \<open>An entry of an \<^verbatim>\<open>EntityDelta\<close> is a field map or \<^verbatim>\<open>null\<close> (here \<^term>\<open>None\<close>).\<close>

type_synonym EntityDelta = "(string \<times> EntityState option) list"

text \<open>
  The counters \<open>tick\<close> and \<open>seq\<close>, in the room state and in a \<^verbatim>\<open>FullDelta\<close>, are
  JavaScript numbers, that is doubles, which hold integers. The model carries each counter
  as the integer it holds; the engine copies and compares counters, which is exact on
  doubles, and increments them, which rounds: see \<open>plusOne\<close> below for \<^verbatim>\<open>++\<close>.
\<close>

record RoomStateData =
  entities :: Entities
  tick :: int
  seq :: int

record PlayerInput =
  playerId :: string
  payload :: EntityState

record FullDelta =
  fd_roomId :: string
  fd_delta :: EntityDelta
  fd_tick :: int
  fd_seq :: int
  fd_ts :: int
  fd_instanceId :: string

text \<open>The message that \<^verbatim>\<open>broadcastDelta\<close> builds and encodes for the clients.\<close>

record DeltaMessage =
  m_roomId :: string
  m_tick :: int
  m_seq :: int
  m_delta :: EntityDelta
  m_timestamp :: int

text \<open>
  The fields of class \<^verbatim>\<open>RoomState\<close> that the operations below read or write. The two
  lists record the effects: \<open>sent\<close> holds the messages handed to the client sockets by
  \<^verbatim>\<open>broadcastDelta\<close>, \<open>published\<close> the payloads handed to \<^verbatim>\<open>publishDelta\<close>, oldest
  first. The client set and the snapshot cadence are not modelled.
\<close>

record RoomState =
  roomId :: string
  state :: RoomStateData
  previousState :: RoomStateData
  isApplyingRemoteDelta :: bool
  sent :: "DeltaMessage list"
  published :: "FullDelta list"

section \<open>The JavaScript runtime\<close>

text \<open>
  The built-in objects are taken in their initial state. These are the property names
  that every plain object inherits from \<^verbatim>\<open>Object.prototype\<close>. All of them are functions,
  except \<^verbatim>\<open>__proto__\<close>, an accessor whose getter returns the prototype object; so a read
  of an inherited name is always truthy.
\<close>

definition protoNames :: "string list" where
  "protoNames =
     [''constructor'', ''__defineGetter__'', ''__defineSetter__'', ''hasOwnProperty'',
      ''__lookupGetter__'', ''__lookupSetter__'', ''isPrototypeOf'', ''propertyIsEnumerable'',
      ''toString'', ''valueOf'', ''__proto__'', ''toLocaleString'']"

text \<open>\<^verbatim>\<open>k in obj\<close>: an own property or an inherited one.\<close>

definition hasProperty :: "(string \<times> 'a) list \<Rightarrow> string \<Rightarrow> bool" where
  "hasProperty obj k = (k \<in> fst ` set obj \<or> k \<in> set protoNames)"

text \<open>
  Truthiness of a read \<^verbatim>\<open>obj[k]\<close> on an object whose own values are objects: an own
  entry or an inherited member.
\<close>

definition truthyAt :: "(string \<times> 'a) list \<Rightarrow> string \<Rightarrow> bool" where
  "truthyAt obj k = (map_of obj k \<noteq> None \<or> k \<in> set protoNames)"

text \<open>
  The properties of a built-in function whose read gives a primitive or throws: its
  \<^verbatim>\<open>name\<close> and \<^verbatim>\<open>length\<close> (a string and a number, both read-only) and the
  accessors \<^verbatim>\<open>caller\<close> and \<^verbatim>\<open>arguments\<close>. Every other read on a built-in function
  gives a function, an object or \<^verbatim>\<open>undefined\<close>.
\<close>

definition builtinFields :: "string list" where
  "builtinFields = [''name'', ''length'', ''caller'', ''arguments'']"

text \<open>
  How a call can end without a result. \<open>TypeError\<close> is the exception of that name.
  \<open>Outside\<close> marks a run that the model does not follow: at that point the source reads
  or writes a property of a built-in object, or replaces the prototype of one of its own
  objects, and what comes next (a result or an exception) depends on the state of the
  runtime's built-ins. No property below speaks about such a run.
\<close>

datatype failure = TypeError | Outside

text \<open>A \<^verbatim>\<open>for ... of\<close> loop whose body may fail.\<close>

primrec foldE :: "('a \<Rightarrow> 'b \<Rightarrow> failure + 'b) \<Rightarrow> 'a list \<Rightarrow> 'b \<Rightarrow> failure + 'b" where
  "foldE f [] acc = Inr acc"
| "foldE f (x # xs) acc = (case f x acc of Inl e \<Rightarrow> Inl e | Inr acc' \<Rightarrow> foldE f xs acc')"

text \<open>
  An assignment \<^verbatim>\<open>obj[field] = v\<close> on an object whose prototype is \<^verbatim>\<open>Object.prototype\<close>.
  It creates or updates an own property, except for the name \<^verbatim>\<open>__proto__\<close> when the
  object has no own property of that name: then the inherited setter runs, which ignores
  a primitive other than \<^verbatim>\<open>null\<close> and takes an object, an array or \<^verbatim>\<open>null\<close> as the
  new prototype of \<open>obj\<close>. \<open>assign\<close> is the assignment of a field value,
  \<open>assignEntry\<close> that of a delta entry, which is always an object or \<^verbatim>\<open>null\<close>.
\<close>

definition assign :: "string \<Rightarrow> jsval \<Rightarrow> EntityState \<Rightarrow> failure + EntityState" where
  "assign field v obj =
     (if field = ''__proto__'' \<and> map_of obj field = None
      then (case v of
              JNull \<Rightarrow> Inl Outside
            | JObj _ \<Rightarrow> Inl Outside
            | JArr _ \<Rightarrow> Inl Outside
            | _ \<Rightarrow> Inr obj)
      else Inr (AList.update field v obj))"

definition assignEntry ::
  "string \<Rightarrow> EntityState option \<Rightarrow> EntityDelta \<Rightarrow> failure + EntityDelta" where
  "assignEntry entityId v delta =
     (if entityId = ''__proto__'' \<and> map_of delta entityId = None
      then Inl Outside
      else Inr (AList.update entityId v delta))"

text \<open>
  Doubles. Every integer of magnitude up to \<open>2^53\<close> is a double; beyond, the doubles are
  the multiples of \<open>ulp\<close>. \<open>roundDouble\<close> rounds an integer to the nearest double, ties
  to the even significand (overflow to \<^verbatim>\<open>Infinity\<close>, beyond \<open>2^1024\<close>, is left out).
  \<open>plusOne\<close> is \<^verbatim>\<open>n++\<close> on an integer-valued number.
\<close>

fun ulp :: "nat \<Rightarrow> nat" where
  "ulp m = (if m < 9007199254740992 then 1 else 2 * ulp (m div 2))"

definition roundDouble :: "int \<Rightarrow> int" where
  "roundDouble x =
     (let m = nat \<bar>x\<bar>; u = ulp m; q = m div u; r = m mod u;
          y = (if 2 * r < u then q * u
               else if u < 2 * r then (q + 1) * u
               else if even q then q * u else (q + 1) * u)
      in sgn x * int y)"

definition plusOne :: "int \<Rightarrow> int" where
  "plusOne n = roundDouble (n + 1)"

section \<open>Delta engine\<close>

text \<open>
  \<^verbatim>\<open>a === b\<close> on two property reads, the second an own JSON value. \<^term>\<open>None\<close> on the
  left stands for a read that finds no own property: the result is \<^verbatim>\<open>undefined\<close> or an
  inherited function or object, never equal to a JSON value. Primitives compare by
  value. Objects and arrays compare by reference, and the two operands of the engine's
  comparison always live in different object graphs (the previous state is a
  serialisation clone), so two structured values are never strictly equal.
\<close>

fun strict_eq :: "jsval option \<Rightarrow> jsval option \<Rightarrow> bool" where
  "strict_eq None None = True"
| "strict_eq (Some JNull) (Some JNull) = True"
| "strict_eq (Some (JBool a)) (Some (JBool b)) = (a = b)"
| "strict_eq (Some (JNum a)) (Some (JNum b)) = (a = b)"
| "strict_eq (Some (JStr a)) (Some (JStr b)) = (a = b)"
| "strict_eq _ _ = False"

text \<open>
  The field-level diff inside \<^verbatim>\<open>computeEntityDelta\<close> when the previous entity is an own
  entity: first the fields of the next entity whose value is not strictly equal to the
  previous one, then the fields of the previous entity that are not \<^verbatim>\<open>in\<close> the next one,
  as \<^verbatim>\<open>null\<close>.
\<close>

definition fieldDelta :: "EntityState \<Rightarrow> EntityState \<Rightarrow> failure + EntityState" where
  "fieldDelta prevEntity nextEntity =
     (case
        foldE (\<lambda>field fd.
                 case map_of nextEntity field of
                   None \<Rightarrow> Inr fd
                 | Some v \<Rightarrow>
                     if \<not> strict_eq (map_of prevEntity field) (Some v)
                     then assign field v fd else Inr fd)
              (map fst nextEntity) []
      of
        Inl e \<Rightarrow> Inl e
      | Inr changed \<Rightarrow>
          foldE (\<lambda>field fd.
                   if \<not> hasProperty nextEntity field
                   then assign field JNull fd else Inr fd)
                (map fst prevEntity) changed)"

text \<open>
  The same diff when \<^verbatim>\<open>prev[entityId]\<close> is an inherited member of \<^verbatim>\<open>Object.prototype\<close>.
  The member has no enumerable keys, so nothing counts as removed. For a function member
  a field of the next entity differs from the member's property of that name whenever
  that property is a function, an object or \<^verbatim>\<open>undefined\<close>; for the names in
  \<open>builtinFields\<close> the comparison is with a value of the built-in, or the read throws.
  For \<^verbatim>\<open>__proto__\<close> the member is \<^verbatim>\<open>Object.prototype\<close> itself, whose properties are
  functions or \<^verbatim>\<open>undefined\<close>, except its own \<^verbatim>\<open>__proto__\<close>, which reads \<^verbatim>\<open>null\<close>.
\<close>

definition builtinDelta :: "string \<Rightarrow> EntityState \<Rightarrow> failure + EntityState" where
  "builtinDelta entityId nextEntity =
     foldE (\<lambda>field fd.
              case map_of nextEntity field of
                None \<Rightarrow> Inr fd
              | Some v \<Rightarrow>
                  if entityId = ''__proto__''
                  then (if field = ''__proto__'' \<and> v = JNull then Inr fd
                        else assign field v fd)
                  else if field \<in> set builtinFields then Inl Outside
                  else assign field v fd)
           (map fst nextEntity) []"

text \<open>
  \<^verbatim>\<open>JSON.stringify(prevEntity) !== JSON.stringify(nextEntity)\<close> on two own entities is
  modelled by inequality of the two association lists: the serialisation of a JSON tree
  determines the tree, key order included. The serialisation of an inherited function is
  \<^verbatim>\<open>undefined\<close> and that of \<^verbatim>\<open>Object.prototype\<close> is \<^verbatim>\<open>{}\<close>: against an inherited
  member the test only fails for an empty next entity under the id \<^verbatim>\<open>__proto__\<close>, which
  gives no entry on either path. \<^verbatim>\<open>!prevEntity\<close> holds when \<^verbatim>\<open>prev[entityId]\<close> is
  neither an own entity nor an inherited member.
\<close>

definition computeEntityDelta :: "Entities \<Rightarrow> Entities \<Rightarrow> failure + EntityDelta" where
  "computeEntityDelta prev next =
     (case
        foldE (\<lambda>entityId delta.
                 case map_of next entityId of
                   None \<Rightarrow> Inr delta
                 | Some nextEntity \<Rightarrow>
                     (case map_of prev entityId of
                        None \<Rightarrow>
                          if entityId \<in> set protoNames
                          then (case builtinDelta entityId nextEntity of
                                  Inl e \<Rightarrow> Inl e
                                | Inr fd \<Rightarrow>
                                    if length (map fst fd) > 0
                                    then assignEntry entityId (Some fd) delta
                                    else Inr delta)
                          else assignEntry entityId (Some nextEntity) delta
                      | Some prevEntity \<Rightarrow>
                          if prevEntity \<noteq> nextEntity
                          then (case fieldDelta prevEntity nextEntity of
                                  Inl e \<Rightarrow> Inl e
                                | Inr fd \<Rightarrow>
                                    if length (map fst fd) > 0
                                    then assignEntry entityId (Some fd) delta
                                    else Inr delta)
                          else Inr delta))
              (map fst next) []
      of
        Inl e \<Rightarrow> Inl e
      | Inr added \<Rightarrow>
          foldE (\<lambda>entityId delta.
                   if \<not> hasProperty next entityId
                   then assignEntry entityId None delta else Inr delta)
                (map fst prev) added)"

definition createDeltaPayload ::
  "string \<Rightarrow> int \<Rightarrow> string \<Rightarrow> EntityDelta \<Rightarrow> int \<Rightarrow> int \<Rightarrow> FullDelta" where
  "createDeltaPayload instanceId now rid delta t s =
     \<lparr>fd_roomId = rid, fd_delta = delta, fd_tick = t, fd_seq = s,
      fd_ts = now, fd_instanceId = instanceId\<rparr>"

definition shouldApplyRemoteDelta :: "string \<Rightarrow> FullDelta \<Rightarrow> int \<Rightarrow> bool" where
  "shouldApplyRemoteDelta instanceId remoteDelta localSeq =
     (if fd_instanceId remoteDelta = instanceId then False
      else if fd_seq remoteDelta \<le> localSeq then False
      else True)"

text \<open>
  The inner loop of \<^verbatim>\<open>applyDeltaToEntities\<close> over the fields of one change, on an own
  entity.
\<close>

definition applyChanges :: "EntityState \<Rightarrow> EntityState \<Rightarrow> failure + EntityState" where
  "applyChanges entity changes =
     foldE (\<lambda>(field, v) e.
              if v = JNull then Inr (AList.delete field e)
              else assign field v e)
           changes entity"

text \<open>
  The field loop when \<^verbatim>\<open>entities[entityId]\<close> is an inherited member: every step
  assigns to or deletes from the built-in. Without fields nothing happens. An assignment
  to the read-only \<^verbatim>\<open>name\<close> or \<^verbatim>\<open>length\<close> of an inherited function throws in strict
  mode (the module is an ES module), and so the loop ends in a \<^verbatim>\<open>TypeError\<close> whenever it
  has such a step: the steps before it either land on the built-in or throw as well.
\<close>

definition writeBuiltin :: "string \<Rightarrow> EntityState \<Rightarrow> failure option" where
  "writeBuiltin entityId changes =
     (if changes = [] then None
      else if entityId \<noteq> ''__proto__''
              \<and> list_ex (\<lambda>(field, v). v \<noteq> JNull \<and> (field = ''name'' \<or> field = ''length''))
                   changes
      then Some TypeError
      else Some Outside)"

definition applyDeltaToEntities :: "Entities \<Rightarrow> EntityDelta \<Rightarrow> failure + Entities" where
  "applyDeltaToEntities ents delta =
     foldE (\<lambda>(entityId, changes) es.
              case changes of
                None \<Rightarrow> Inr (AList.delete entityId es)
              | Some ch \<Rightarrow>
                  if \<not> truthyAt es entityId
                  then Inr (AList.update entityId ch es)
                  else (case map_of es entityId of
                          Some e \<Rightarrow>
                            (case applyChanges e ch of
                               Inl f \<Rightarrow> Inl f
                             | Inr e' \<Rightarrow> Inr (AList.update entityId e' es))
                        | None \<Rightarrow>
                            (case writeBuiltin entityId ch of
                               Some f \<Rightarrow> Inl f
                             | None \<Rightarrow> Inr es)))
           delta ents"

definition isDeltaEmpty :: "EntityDelta \<Rightarrow> bool" where
  "isDeltaEmpty delta = (length (map fst delta) = 0)"

section \<open>Room\<close>

text \<open>
  \<^verbatim>\<open>JSON.parse(JSON.stringify(state))\<close> on a state of JSON trees: the copy has the
  own properties of the original.
\<close>

definition cloneState :: "RoomState \<Rightarrow> RoomStateData" where
  "cloneState room = state room"

definition broadcastDelta :: "int \<Rightarrow> EntityDelta \<Rightarrow> RoomState \<Rightarrow> RoomState" where
  "broadcastDelta now delta room =
     (if isDeltaEmpty delta then room
      else room\<lparr>sent := sent room @
             [\<lparr>m_roomId = roomId room, m_tick = tick (state room),
               m_seq = seq (state room), m_delta = delta, m_timestamp = now\<rparr>]\<rparr>)"

definition publishDeltaToRedis ::
  "string \<Rightarrow> int \<Rightarrow> EntityDelta \<Rightarrow> RoomState \<Rightarrow> RoomState" where
  "publishDeltaToRedis instanceId now delta room =
     (if isApplyingRemoteDelta room then room
      else room\<lparr>published := published room @
             [createDeltaPayload instanceId now (roomId room) delta
                (tick (state room)) (seq (state room))]\<rparr>)"

text \<open>
  Object spread \<^verbatim>\<open>{...target, ...source}\<close>: the source's own properties, in order,
  defined on the new object (a spread defines properties, it runs no setter).
\<close>

definition spread :: "EntityState \<Rightarrow> EntityState \<Rightarrow> EntityState" where
  "spread target source = fold (\<lambda>(k, v) acc. AList.update k v acc) source target"

text \<open>
  \<^verbatim>\<open>applyInput\<close>. The three integers are the readings of \<^verbatim>\<open>Date.now()\<close> for the
  \<^verbatim>\<open>lastUpdate\<close> stamp, the broadcast message and the published payload. The spread of
  \<^verbatim>\<open>entities[playerId]\<close> copies the own entity; \<^verbatim>\<open>undefined\<close> and an inherited member
  have no enumerable properties to copy. The assignment \<^verbatim>\<open>entities[playerId] = ...\<close>
  creates or replaces an own property, except for the name \<^verbatim>\<open>__proto__\<close> when it is not
  an own property: then the inherited setter replaces the prototype of the entities
  object, and the model stops.
\<close>

definition applyInput ::
  "string \<Rightarrow> int \<Rightarrow> int \<Rightarrow> int \<Rightarrow> PlayerInput \<Rightarrow> RoomState
     \<Rightarrow> failure + (EntityDelta \<times> RoomState)" where
  "applyInput instanceId now nowB nowP input room =
     (let room1 = room\<lparr>previousState := cloneState room\<rparr>;
          old = (case map_of (entities (state room1)) (playerId input) of
                   None \<Rightarrow> [] | Some e \<Rightarrow> e);
          entity = AList.update ''lastUpdate'' (JNum now)
                     (spread (spread [] old) (payload input))
      in if playerId input = ''__proto__''
            \<and> map_of (entities (state room1)) (playerId input) = None
         then Inl Outside
         else
           (let st1 = (state room1)\<lparr>entities :=
                        AList.update (playerId input) entity (entities (state room1))\<rparr>;
                st2 = st1\<lparr>tick := plusOne (tick st1)\<rparr>;
                st3 = st2\<lparr>seq := plusOne (seq st2)\<rparr>;
                room2 = room1\<lparr>state := st3\<rparr>
            in case computeEntityDelta (entities (previousState room2))
                      (entities (state room2))
               of
                 Inl f \<Rightarrow> Inl f
               | Inr delta \<Rightarrow>
                   Inr (delta,
                        if \<not> isDeltaEmpty delta
                        then publishDeltaToRedis instanceId nowP delta
                               (broadcastDelta nowB delta room2)
                        else room2)))"

text \<open>
  \<^verbatim>\<open>applyRemoteDelta\<close>. An exception out of \<^verbatim>\<open>applyDeltaToEntities\<close> leaves through the
  \<^verbatim>\<open>finally\<close> block: the call returns neither \<open>true\<close> nor \<open>false\<close>.
\<close>

definition applyRemoteDelta ::
  "string \<Rightarrow> int \<Rightarrow> FullDelta \<Rightarrow> RoomState \<Rightarrow> failure + (bool \<times> RoomState)" where
  "applyRemoteDelta instanceId nowB remoteDelta room =
     (if \<not> shouldApplyRemoteDelta instanceId remoteDelta (seq (state room))
      then Inr (False, room)
      else
        (let room1 = room\<lparr>isApplyingRemoteDelta := True\<rparr>
         in case applyDeltaToEntities (entities (state room1)) (fd_delta remoteDelta) of
              Inl f \<Rightarrow> Inl f
            | Inr es \<Rightarrow>
                (let st1 = (state room1)\<lparr>entities := es\<rparr>;
                     st2 = st1\<lparr>seq := fd_seq remoteDelta\<rparr>;
                     st3 = st2\<lparr>tick := max (tick st2) (fd_tick remoteDelta)\<rparr>;
                     room2 = broadcastDelta nowB (fd_delta remoteDelta) (room1\<lparr>state := st3\<rparr>)
                 in Inr (True, room2\<lparr>isApplyingRemoteDelta := False\<rparr>))))"

definition removeEntity :: "string \<Rightarrow> RoomState \<Rightarrow> failure + (EntityDelta \<times> RoomState)" where
  "removeEntity pid room =
     (let room1 = room\<lparr>previousState := cloneState room\<rparr>
      in if truthyAt (entities (state room1)) pid
         then
           (let st1 = (state room1)\<lparr>entities := AList.delete pid (entities (state room1))\<rparr>;
                st2 = st1\<lparr>seq := plusOne (seq st1)\<rparr>;
                st3 = st2\<lparr>tick := plusOne (tick st2)\<rparr>;
                room2 = room1\<lparr>state := st3\<rparr>
            in case computeEntityDelta (entities (previousState room2))
                      (entities (state room2))
               of
                 Inl f \<Rightarrow> Inl f
               | Inr delta \<Rightarrow> Inr (delta, room2))
         else Inr ([], room1))"


text \<open>
  The constructor: the given initial state, or the fresh state
  \<^verbatim>\<open>{entities: {}, tick: 0, seq: 0}\<close>.
\<close>

definition newRoomState :: "string \<Rightarrow> RoomStateData option \<Rightarrow> RoomState" where
  "newRoomState rid initialState =
     (let st = (case initialState of
                  None \<Rightarrow> \<lparr>entities = [], tick = 0, seq = 0\<rparr>
                | Some st0 \<Rightarrow> st0)
      in \<lparr>roomId = rid, state = st, previousState = st,
          isApplyingRemoteDelta = False, sent = [], published = []\<rparr>)"

section \<open>Vocabulary of the properties\<close>

text \<open>
  The numbers that \<^verbatim>\<open>++\<close> counts exactly: the integers \<open>n\<close> with \<open>-2^53 \<le> n < 2^53\<close>.
\<close>

definition countsExactly :: "int \<Rightarrow> bool" where
  "countsExactly n = (- 9007199254740992 \<le> n \<and> n < 9007199254740992)"











text \<open>
  A delta as it comes out of a decoder, with distinct keys, whose entity ids are no member
  names of \<^verbatim>\<open>Object.prototype\<close> and whose changes have no field \<^verbatim>\<open>__proto__\<close>.
\<close>

definition plainDelta :: "EntityDelta \<Rightarrow> bool" where
  "plainDelta delta =
     (distinct (map fst delta)
      \<and> list_all (\<lambda>(i, c). i \<notin> set protoNames
                     \<and> (case c of
                          None \<Rightarrow> True
                        | Some ch \<Rightarrow> distinct (map fst ch) \<and> ''__proto__'' \<notin> fst ` set ch))
           delta)"




section \<open>Example rooms, inputs and deltas\<close>

text \<open>A room on instance \<open>A\<close> with one entity, at \<open>seq = 1\<close> and \<open>tick = 5\<close>.\<close>

definition roomAt5 :: RoomState where
  "roomAt5 = newRoomState ''r1''
     (Some \<lparr>entities = [(''p1'', [(''x'', JNum 10)])], tick = 5, seq = 1\<rparr>)"

text \<open>
  Payloads from instance \<open>B\<close> with \<open>seq = 2\<close>: one with a tick behind the room's, one
  with a tick ahead, and one whose delta sets the field \<open>name\<close> of an entity with the id
  \<^verbatim>\<open>constructor\<close>.
\<close>

definition remoteOldTick :: FullDelta where
  "remoteOldTick = \<lparr>fd_roomId = ''r1'', fd_delta = [(''p2'', Some [(''y'', JNum 1)])],
     fd_tick = 3, fd_seq = 2, fd_ts = 100, fd_instanceId = ''B''\<rparr>"

definition remoteNewTick :: FullDelta where
  "remoteNewTick = \<lparr>fd_roomId = ''r1'', fd_delta = [(''p2'', Some [(''y'', JNum 1)])],
     fd_tick = 9, fd_seq = 2, fd_ts = 100, fd_instanceId = ''B''\<rparr>"

definition remoteConstructor :: FullDelta where
  "remoteConstructor = \<lparr>fd_roomId = ''r1'',
     fd_delta = [(''constructor'', Some [(''name'', JStr ''bob''), (''lastUpdate'', JNum 1000)])],
     fd_tick = 6, fd_seq = 2, fd_ts = 1000, fd_instanceId = ''B''\<rparr>"

definition moveInput :: PlayerInput where
  "moveInput = \<lparr>playerId = ''p1'', payload = [(''x'', JNum 11), (''y'', JNum 12)]\<rparr>"

definition toStringInput :: PlayerInput where
  "toStringInput = \<lparr>playerId = ''toString'', payload = [(''x'', JNum 1)]\<rparr>"

text \<open>
  The room after the input \<open>toStringInput\<close> on a fresh room at clock reading \<open>5\<close>.
\<close>

definition roomToString :: RoomState where
  "roomToString = newRoomState ''r1''
     (Some \<lparr>entities = [(''toString'', [(''x'', JNum 1), (''lastUpdate'', JNum 5)])],
            tick = 1, seq = 1\<rparr>)"

text \<open>
  A room whose entity was stamped at clock reading \<open>5\<close>, and an input that repeats the
  entity's value.
\<close>

definition roomStamped :: RoomState where
  "roomStamped = newRoomState ''r1''
     (Some \<lparr>entities = [(''p1'', [(''x'', JNum 10), (''lastUpdate'', JNum 5)])],
            tick = 1, seq = 1\<rparr>)"

definition sameInput :: PlayerInput where
  "sameInput = \<lparr>playerId = ''p1'', payload = [(''x'', JNum 10)]\<rparr>"

text \<open>Rooms whose \<open>seq\<close>, respectively \<open>tick\<close>, has reached \<open>2^53\<close>.\<close>

definition roomSeqLimit :: RoomState where
  "roomSeqLimit = newRoomState ''r1''
     (Some \<lparr>entities = [(''p1'', [(''x'', JNum 10)])], tick = 7, seq = 9007199254740992\<rparr>)"

definition roomTickLimit :: RoomState where
  "roomTickLimit = newRoomState ''r1''
     (Some \<lparr>entities = [], tick = 9007199254740992, seq = 7\<rparr>)"






section \<open>Doubles and loops\<close>

lemma ulp_small: "m < 9007199254740992 \<Longrightarrow> ulp m = 1"
  by simp

lemma ulp_limit: "ulp 9007199254740992 = 2"
  by simp

lemma ulp_limit1: "ulp 9007199254740993 = 2"
  by simp

lemma roundDouble_exact:
  assumes "\<bar>x\<bar> \<le> 9007199254740992"
  shows "roundDouble x = x"
proof (cases "\<bar>x\<bar> < 9007199254740992")
  case True
  then have "nat \<bar>x\<bar> < 9007199254740992" by simp
  then have u: "ulp (nat \<bar>x\<bar>) = 1" by (rule ulp_small)
  show ?thesis
    unfolding roundDouble_def Let_def u
    by (simp add: sgn_if)
next
  case False
  with assms have a: "\<bar>x\<bar> = 9007199254740992" by simp
  then have n: "nat \<bar>x\<bar> = 9007199254740992" by simp
  from a have "x = 9007199254740992 \<or> x = - 9007199254740992" by arith
  then show ?thesis
    unfolding roundDouble_def Let_def n ulp_limit
    by (auto simp add: sgn_if)
qed

lemma plusOne_exact: "countsExactly n \<Longrightarrow> plusOne n = n + 1"
  unfolding plusOne_def countsExactly_def
  by (rule roundDouble_exact) arith

lemma plusOne_limit: "plusOne 9007199254740992 = 9007199254740992"
proof -
  have n: "nat \<bar>9007199254740992 + 1 :: int\<bar> = 9007199254740993" by simp
  show ?thesis
    unfolding plusOne_def roundDouble_def Let_def n ulp_limit1
    by (simp add: sgn_if)
qed

lemma plusOne_small [simp]: "plusOne 0 = 1" "plusOne 1 = 2" "plusOne 2 = 3" "plusOne 5 = 6" "plusOne 7 = 8"
  by (simp_all add: plusOne_exact countsExactly_def)

lemma foldE_pure:
  "(\<And>x acc. x \<in> set xs \<Longrightarrow> f x acc = Inr (g x acc)) \<Longrightarrow> foldE f xs a = Inr (fold g xs a)"
  by (induction xs arbitrary: a) simp_all


lemma fold_unchanged:
  "(\<And>x acc. x \<in> set xs \<Longrightarrow> f x acc = acc) \<Longrightarrow> fold f xs a = a"
  by (induction xs arbitrary: a) simp_all

lemma fold_single_update_fixed:
  "fold (\<lambda>k acc. if k = p then AList.update p v acc else acc) ks [(p, v)] = [(p, v)]"
  by (induction ks) simp_all

lemma fold_single_update:
  "fold (\<lambda>k acc. if k = p then AList.update p v acc else acc) ks [] =
     (if p \<in> set ks then [(p, v)] else [])"
  by (induction ks) (simp_all add: fold_single_update_fixed)

section \<open>Association lists as objects\<close>

lemma keys_iff: "k \<in> fst ` set al \<longleftrightarrow> map_of al k \<noteq> None"
  by (simp add: map_of_eq_None_iff)








lemma proto_in_protoNames: "''__proto__'' \<in> set protoNames"
  by (simp add: protoNames_def)




lemma assign_plain: "field \<noteq> ''__proto__'' \<Longrightarrow> assign field v obj = Inr (AList.update field v obj)"
  by (simp add: assign_def)

lemma assignEntry_plain:
  "entityId \<noteq> ''__proto__'' \<Longrightarrow> assignEntry entityId v delta = Inr (AList.update entityId v delta)"
  by (simp add: assignEntry_def)


section \<open>The delta engine on plain keys\<close>





lemma computeEntityDelta_delete:
  assumes "map_of es pid \<noteq> None"
  shows "computeEntityDelta es (AList.delete pid es) =
     Inr (if pid \<in> set protoNames then [] else [(pid, None)])"
proof -
  let ?nxt = "AList.delete pid es"
  let ?e1 = "\<lambda>entityId delta.
                 case map_of ?nxt entityId of
                   None \<Rightarrow> Inr delta
                 | Some nextEntity \<Rightarrow>
                     (case map_of es entityId of
                        None \<Rightarrow>
                          if entityId \<in> set protoNames
                          then (case builtinDelta entityId nextEntity of
                                  Inl e \<Rightarrow> Inl e
                                | Inr fd \<Rightarrow>
                                    if length (map fst fd) > 0
                                    then assignEntry entityId (Some fd) delta
                                    else Inr delta)
                          else assignEntry entityId (Some nextEntity) delta
                      | Some prevEntity \<Rightarrow>
                          if prevEntity \<noteq> nextEntity
                          then (case fieldDelta prevEntity nextEntity of
                                  Inl e \<Rightarrow> Inl e
                                | Inr fd \<Rightarrow>
                                    if length (map fst fd) > 0
                                    then assignEntry entityId (Some fd) delta
                                    else Inr delta)
                          else Inr delta)"
  let ?e2 = "\<lambda>entityId delta.
                 if \<not> hasProperty ?nxt entityId
                 then assignEntry entityId None delta else Inr (delta :: EntityDelta)"
  let ?g2 = "\<lambda>k (acc :: EntityDelta).
                 if k = pid then AList.update pid None acc else acc"
  have keys: "fst ` set ?nxt = fst ` set es - {pid}"
    using delete_keys [of pid es] by (metis set_map set_removeAll)
  have same: "\<And>k. k \<noteq> pid \<Longrightarrow> map_of ?nxt k = map_of es k"
    by simp
  have "\<And>k acc. k \<in> set (map fst ?nxt) \<Longrightarrow> ?e1 k acc = Inr ((\<lambda>k acc. acc) k acc)"
  proof -
    fix k and acc :: EntityDelta
    assume "k \<in> set (map fst ?nxt)"
    with keys have "k \<noteq> pid" by auto
    then show "?e1 k acc = Inr ((\<lambda>k acc. acc) k acc)" by (simp add: same split: option.splits)
  qed
  then have "foldE ?e1 (map fst ?nxt) [] = Inr (fold (\<lambda>k acc. acc) (map fst ?nxt) [])"
    by (rule foldE_pure)
  then have one: "foldE ?e1 (map fst ?nxt) [] = Inr []"
    by (simp add: fold_unchanged)
  from assms have pk: "pid \<in> set (map fst es)"
    using keys_iff [of pid es] by simp
  have whole: "computeEntityDelta es ?nxt = foldE ?e2 (map fst es) []"
    unfolding computeEntityDelta_def one by (simp only: sum.case)
  show ?thesis
  proof (cases "pid \<in> set protoNames")
    case True
    have "\<And>k acc. k \<in> set (map fst es) \<Longrightarrow> ?e2 k acc = Inr ((\<lambda>k acc. acc) k acc)"
      using keys True by (auto simp add: hasProperty_def)
    then have "foldE ?e2 (map fst es) [] = Inr (fold (\<lambda>k acc. acc) (map fst es) [])"
      by (rule foldE_pure)
    with True show ?thesis
      unfolding whole by (simp add: fold_unchanged)
  next
    case False
    then have np: "pid \<noteq> ''__proto__''" using proto_in_protoNames by auto
    have "\<And>k acc. k \<in> set (map fst es) \<Longrightarrow> ?e2 k acc = Inr (?g2 k acc)"
    proof -
      fix k and acc :: EntityDelta
      assume k: "k \<in> set (map fst es)"
      show "?e2 k acc = Inr (?g2 k acc)"
      proof (cases "k = pid")
        case True
        with keys False np show ?thesis
          by (auto simp add: hasProperty_def assignEntry_plain)
      next
        case False
        with k keys have "k \<in> fst ` set ?nxt" by auto
        with False show ?thesis by (simp add: hasProperty_def)
      qed
    qed
    then have "foldE ?e2 (map fst es) [] = Inr (fold ?g2 (map fst es) [])"
      by (rule foldE_pure)
    with pk False show ?thesis
      unfolding whole by (simp add: fold_single_update)
  qed
qed


lemma applyChanges_own:
  assumes "distinct (map fst ch)" and "''__proto__'' \<notin> fst ` set ch"
  shows "\<exists>e'. applyChanges e ch = Inr e'
     \<and> (\<forall>f. map_of e' f =
          (case map_of ch f of None \<Rightarrow> map_of e f
           | Some v \<Rightarrow> if v = JNull then None else Some v))"
  using assms
proof (induction ch arbitrary: e)
  case Nil
  show ?case by (simp add: applyChanges_def)
next
  case (Cons a ch)
  obtain k v where a: "a = (k, v)" by (cases a)
  from Cons.prems a have k: "map_of ch k = None" and d: "distinct (map fst ch)"
    and np: "k \<noteq> ''__proto__''" and p: "''__proto__'' \<notin> fst ` set ch"
    by (auto simp add: map_of_eq_None_iff)
  let ?e1 = "if v = JNull then AList.delete k e else AList.update k v e"
  have unf: "applyChanges e (a # ch) = applyChanges ?e1 ch"
    using np by (simp add: applyChanges_def a assign_plain)
  from Cons.IH [where e = ?e1, OF d p] obtain e' where
    r: "applyChanges ?e1 ch = Inr e'"
    and m: "\<forall>f. map_of e' f =
          (case map_of ch f of None \<Rightarrow> map_of ?e1 f
           | Some v \<Rightarrow> if v = JNull then None else Some v)"
    by blast
  have "\<forall>f. map_of e' f =
          (case map_of (a # ch) f of None \<Rightarrow> map_of e f
           | Some v \<Rightarrow> if v = JNull then None else Some v)"
    using m k by (auto simp add: a update_conv' delete_conv' split: option.splits)
  with r unf show ?case by simp
qed

lemma applyDeltaToEntities_own:
  assumes "distinct (map fst delta)"
    and "\<forall>i \<in> fst ` set delta. i \<notin> set protoNames"
    and "\<forall>i ch. (i, Some ch) \<in> set delta \<longrightarrow> map_of es i \<noteq> None \<longrightarrow>
           distinct (map fst ch) \<and> ''__proto__'' \<notin> fst ` set ch"
  shows "\<exists>r. applyDeltaToEntities es delta = Inr r
     \<and> (\<forall>i. map_of r i =
          (case map_of delta i of
             None \<Rightarrow> map_of es i
           | Some None \<Rightarrow> None
           | Some (Some ch) \<Rightarrow>
               (case map_of es i of
                  None \<Rightarrow> Some ch
                | Some e \<Rightarrow> Some (projr (applyChanges e ch)))))"
  using assms
proof (induction delta arbitrary: es)
  case Nil
  show ?case by (simp add: applyDeltaToEntities_def)
next
  case (Cons a delta)
  obtain k c where a: "a = (k, c)" by (cases a)
  from Cons.prems(1) a have k: "map_of delta k = None" and d: "distinct (map fst delta)"
    by (auto simp add: map_of_eq_None_iff)
  from Cons.prems(2) a have kp: "k \<notin> set protoNames" by simp
  have p2: "\<forall>i \<in> fst ` set delta. i \<notin> set protoNames"
    using Cons.prems(2) by auto
  let ?es' = "case c of
               None \<Rightarrow> AList.delete k es
             | Some ch \<Rightarrow>
                 (case map_of es k of
                    None \<Rightarrow> AList.update k ch es
                  | Some e \<Rightarrow> AList.update k (projr (applyChanges e ch)) es)"
  have ne: "\<And>i. i \<in> fst ` set delta \<Longrightarrow> i \<noteq> k"
    using k by (auto simp add: map_of_eq_None_iff)
  have p3: "\<forall>i ch. (i, Some ch) \<in> set delta \<longrightarrow> map_of ?es' i \<noteq> None \<longrightarrow>
           distinct (map fst ch) \<and> ''__proto__'' \<notin> fst ` set ch"
  proof (intro allI impI)
    fix i ch
    assume m: "(i, Some ch) \<in> set delta" and s: "map_of ?es' i \<noteq> None"
    from m have "i \<in> fst ` set delta" by force
    then have "i \<noteq> k" by (rule ne)
    then have "map_of ?es' i = map_of es i"
      by (simp add: update_conv' delete_conv' split: option.splits)
    with s m Cons.prems(3) show "distinct (map fst ch) \<and> ''__proto__'' \<notin> fst ` set ch"
      by auto
  qed
  have stepok: "\<And>ch e. c = Some ch \<Longrightarrow> map_of es k = Some e \<Longrightarrow> \<exists>e'. applyChanges e ch = Inr e'"
  proof -
    fix ch e
    assume "c = Some ch" and "map_of es k = Some e"
    with Cons.prems(3) a have "distinct (map fst ch) \<and> ''__proto__'' \<notin> fst ` set ch"
      by simp
    then show "\<exists>e'. applyChanges e ch = Inr e'"
      using applyChanges_own [of ch e] by blast
  qed
  have unf: "applyDeltaToEntities es (a # delta) = applyDeltaToEntities ?es' delta"
  proof (cases c)
    case None
    then show ?thesis by (simp add: applyDeltaToEntities_def a)
  next
    case (Some ch)
    show ?thesis
    proof (cases "map_of es k")
      case None
      with Some kp show ?thesis
        by (simp add: applyDeltaToEntities_def a truthyAt_def)
    next
      case (Some e)
      from stepok [OF \<open>c = Some ch\<close> Some] obtain e' where "applyChanges e ch = Inr e'" by blast
      with Some \<open>c = Some ch\<close> show ?thesis
        by (simp add: applyDeltaToEntities_def a truthyAt_def)
    qed
  qed
  from Cons.IH [where es = ?es', OF d p2 p3] obtain r where
    r: "applyDeltaToEntities ?es' delta = Inr r"
    and m: "\<forall>i. map_of r i =
          (case map_of delta i of
             None \<Rightarrow> map_of ?es' i
           | Some None \<Rightarrow> None
           | Some (Some ch) \<Rightarrow>
               (case map_of ?es' i of
                  None \<Rightarrow> Some ch
                | Some e \<Rightarrow> Some (projr (applyChanges e ch))))"
    by blast
  have "\<forall>i. map_of r i =
          (case map_of (a # delta) i of
             None \<Rightarrow> map_of es i
           | Some None \<Rightarrow> None
           | Some (Some ch) \<Rightarrow>
               (case map_of es i of
                  None \<Rightarrow> Some ch
                | Some e \<Rightarrow> Some (projr (applyChanges e ch))))"
    using m k by (auto simp add: a update_conv' delete_conv' split: option.splits)
  with r unf show ?case by simp
qed

lemmas example_defs =
  roomAt5_def remoteOldTick_def remoteNewTick_def remoteConstructor_def newRoomState_def
  moveInput_def toStringInput_def roomStamped_def sameInput_def roomSeqLimit_def
  roomTickLimit_def Let_def

lemmas eval_defs = applyInput_def cloneState_def spread_def computeEntityDelta_def fieldDelta_def
  builtinDelta_def isDeltaEmpty_def broadcastDelta_def publishDeltaToRedis_def
  createDeltaPayload_def hasProperty_def truthyAt_def protoNames_def builtinFields_def
  removeEntity_def applyRemoteDelta_def shouldApplyRemoteDelta_def applyDeltaToEntities_def
  applyChanges_def writeBuiltin_def assign_def assignEntry_def AList.delete_eq

section \<open>Round trip of a delta\<close>









section \<open>Remote deltas\<close>



text \<open>The outcomes of \<^verbatim>\<open>applyRemoteDelta\<close>: rejected, failed, applied.\<close>

lemma applyRemoteDelta_cases:
  "applyRemoteDelta iid nowB fd room =
     (if fd_instanceId fd = iid \<or> fd_seq fd \<le> seq (state room)
      then Inr (False, room)
      else (case applyDeltaToEntities (entities (state room)) (fd_delta fd) of
              Inl f \<Rightarrow> Inl f
            | Inr es \<Rightarrow>
                Inr (True,
                     (broadcastDelta nowB (fd_delta fd)
                        (room\<lparr>isApplyingRemoteDelta := True,
                               state := (state room)
                                 \<lparr>entities := es, seq := fd_seq fd,
                                  tick := max (tick (state room)) (fd_tick fd)\<rparr>\<rparr>))
                     \<lparr>isApplyingRemoteDelta := False\<rparr>)))"
  by (auto simp add: applyRemoteDelta_def shouldApplyRemoteDelta_def Let_def split: sum.splits)

text \<open>
  On a plain delta \<^verbatim>\<open>applyRemoteDelta\<close> returns \<open>false\<close> with the room untouched when the
  payload is the instance's own or its \<open>seq\<close> is not above the room's, and \<open>true\<close>
  otherwise.
\<close>

lemma applyRemoteDelta_plain:
  assumes "plainDelta (fd_delta fd)"
  shows "\<exists>room'. applyRemoteDelta iid nowB fd room =
            Inr (\<not> (fd_instanceId fd = iid \<or> fd_seq fd \<le> seq (state room)), room')
     \<and> (fd_instanceId fd = iid \<or> fd_seq fd \<le> seq (state room) \<longrightarrow> room' = room)"
proof -
  from assms have d: "distinct (map fst (fd_delta fd))"
    and a: "\<forall>p \<in> set (fd_delta fd). fst p \<notin> set protoNames
        \<and> (case snd p of None \<Rightarrow> True
            | Some ch \<Rightarrow> distinct (map fst ch) \<and> ''__proto__'' \<notin> fst ` set ch)"
    by (simp_all add: plainDelta_def list_all_iff case_prod_beta)
  from a have k: "\<forall>i \<in> fst ` set (fd_delta fd). i \<notin> set protoNames" by auto
  have e: "\<forall>i ch. (i, Some ch) \<in> set (fd_delta fd) \<longrightarrow> map_of (entities (state room)) i \<noteq> None \<longrightarrow>
           distinct (map fst ch) \<and> ''__proto__'' \<notin> fst ` set ch"
  proof (intro allI impI)
    fix i ch
    assume "(i, Some ch) \<in> set (fd_delta fd)"
    with a have "case snd (i, Some ch) of None \<Rightarrow> True
            | Some ch \<Rightarrow> distinct (map fst ch) \<and> ''__proto__'' \<notin> fst ` set ch"
      by blast
    then show "distinct (map fst ch) \<and> ''__proto__'' \<notin> fst ` set ch" by simp
  qed
  from applyDeltaToEntities_own [OF d k e] obtain es where
    "applyDeltaToEntities (entities (state room)) (fd_delta fd) = Inr es" by blast
  then show ?thesis
    by (simp add: applyRemoteDelta_cases)
qed

text \<open>
  C2. The payload \<open>remoteConstructor\<close> comes from another instance and its \<open>seq\<close> is above
  the room's: it is not rejected, and by the claim the call applies it and returns
  \<open>true\<close>. In the code \<^verbatim>\<open>entities['constructor']\<close> reads the inherited \<^verbatim>\<open>Object\<close>, which is
  truthy, so \<^verbatim>\<open>applyDeltaToEntities\<close> takes the update branch and assigns to the
  read-only \<^verbatim>\<open>name\<close> of that function: the call ends in a \<^verbatim>\<open>TypeError\<close> and returns
  neither \<open>true\<close> nor \<open>false\<close>.
\<close>

theorem applyRemoteDelta_throws:
  "fd_instanceId remoteConstructor \<noteq> ''A''
   \<and> \<not> fd_seq remoteConstructor \<le> seq (state roomAt5)
   \<and> applyRemoteDelta ''A'' 7 remoteConstructor roomAt5 = Inl TypeError"
  by (simp add: example_defs eval_defs)



section \<open>Player input\<close>











section \<open>Counters\<close>




section \<open>Removal of an entity\<close>


lemma removeEntity_present_own:
  assumes "map_of (entities (state room)) pid \<noteq> None"
  shows "removeEntity pid room =
     Inr (if pid \<in> set protoNames then [] else [(pid, None)],
          room\<lparr>previousState := state room,
               state := (state room)\<lparr>entities := AList.delete pid (entities (state room)),
                                      seq := plusOne (seq (state room)),
                                      tick := plusOne (tick (state room))\<rparr>\<rparr>)"
  using assms
  by (simp add: removeEntity_def Let_def cloneState_def truthyAt_def computeEntityDelta_delete)

lemma removeEntity_absent_plain:
  assumes "map_of (entities (state room)) pid = None" and "pid \<notin> set protoNames"
  shows "removeEntity pid room = Inr ([], room\<lparr>previousState := state room\<rparr>)"
  using assms by (simp add: removeEntity_def Let_def cloneState_def truthyAt_def)

text \<open>
  C8, amended. Let the room hold the entity \<open>playerId\<close>, let \<open>playerId\<close> be no member name
  of \<^verbatim>\<open>Object.prototype\<close>, and let \<open>seq\<close> and \<open>tick\<close> be integers counted exactly
  (\<open>-2^53 \<le> n < 2^53\<close>). Then \<^verbatim>\<open>removeEntity(playerId)\<close> deletes that entity and no other,
  adds one to \<open>seq\<close> and one to \<open>tick\<close>, and returns the delta \<open>{playerId: null}\<close>.
\<close>

theorem removeEntity_present:
  assumes "map_of (entities (state room)) pid \<noteq> None" and "pid \<notin> set protoNames"
    and "countsExactly (seq (state room))" and "countsExactly (tick (state room))"
  shows "removeEntity pid room =
     Inr ([(pid, None)],
          room\<lparr>previousState := state room,
               state := (state room)\<lparr>entities := AList.delete pid (entities (state room)),
                                      seq := seq (state room) + 1,
                                      tick := tick (state room) + 1\<rparr>\<rparr>)
     \<and> map_of (AList.delete pid (entities (state room))) pid = None
     \<and> (\<forall>i. i \<noteq> pid \<longrightarrow>
           map_of (AList.delete pid (entities (state room))) i = map_of (entities (state room)) i)"
  using assms(2)
  by (simp add: removeEntity_present_own [OF assms(1)] plusOne_exact [OF assms(3)]
        plusOne_exact [OF assms(4)] delete_conv')

theorem removeEntity_present_witness:
  "map_of (entities (state roomAt5)) ''p1'' \<noteq> None \<and> ''p1'' \<notin> set protoNames
   \<and> countsExactly (seq (state roomAt5)) \<and> countsExactly (tick (state roomAt5))
   \<and> removeEntity ''p1'' roomAt5 =
       Inr ([(''p1'', None)],
            roomAt5\<lparr>previousState := state roomAt5,
                    state := \<lparr>entities = [], tick = 6, seq = 2\<rparr>\<rparr>)"
proof -
  have h1: "map_of (entities (state roomAt5)) ''p1'' \<noteq> None"
    and h2: "''p1'' \<notin> set protoNames"
    and h3: "countsExactly (seq (state roomAt5))"
    and h4: "countsExactly (tick (state roomAt5))"
    by (simp_all add: example_defs countsExactly_def protoNames_def)
  have q: "(state roomAt5)\<lparr>entities := AList.delete ''p1'' (entities (state roomAt5)),
                            seq := seq (state roomAt5) + 1,
                            tick := tick (state roomAt5) + 1\<rparr>
           = \<lparr>entities = [], tick = 6, seq = 2\<rparr>"
    by (simp add: example_defs AList.delete_eq)
  from removeEntity_present [OF h1 h2 h3 h4] h1 h2 h3 h4 show ?thesis
    unfolding q by blast
qed

text \<open>
  C8 as stated fails at the end of the exact range: in a room whose \<open>seq\<close> is \<open>2^53\<close> the
  entity is removed and reported, and \<open>seq\<close> stays \<open>2^53\<close>.
\<close>

theorem removeEntity_seq_limit_counterexample:
  "map_of (entities (state roomSeqLimit)) ''p1'' \<noteq> None
   \<and> (\<exists>r'. removeEntity ''p1'' roomSeqLimit = Inr ([(''p1'', None)], r')
         \<and> seq (state r') = seq (state roomSeqLimit)
         \<and> seq (state r') \<noteq> seq (state roomSeqLimit) + 1)"
  by (simp add: example_defs eval_defs plusOne_limit)

text \<open>
  C10. The room \<open>roomAt5\<close> holds no entity \<^verbatim>\<open>constructor\<close>; by the claim
  \<^verbatim>\<open>removeEntity('constructor')\<close> returns the empty delta and leaves \<open>seq\<close> and \<open>tick\<close>
  as they are. In the code the guard \<^verbatim>\<open>this.state.entities[playerId]\<close> reads the inherited
  \<^verbatim>\<open>Object\<close>, which is truthy: the call returns the empty delta, and \<open>seq\<close> and \<open>tick\<close> have
  gone from \<open>1\<close> and \<open>5\<close> to \<open>2\<close> and \<open>6\<close>.
\<close>

theorem removeEntity_inherited_name:
  "map_of (entities (state roomAt5)) ''constructor'' = None
   \<and> seq (state roomAt5) = 1 \<and> tick (state roomAt5) = 5
   \<and> removeEntity ''constructor'' roomAt5 =
       Inr ([], roomAt5\<lparr>state := (state roomAt5)\<lparr>seq := 2, tick := 6\<rparr>\<rparr>)"
  by (simp add: example_defs eval_defs)

text \<open>
  The same lookup decides what is reported. The input \<open>toStringInput\<close> on a fresh room
  stores the entity \<^verbatim>\<open>toString\<close>. \<^verbatim>\<open>removeEntity('toString')\<close> deletes it and counts, and
  returns the empty delta: \<^verbatim>\<open>'toString' in next\<close> holds through the prototype, so the
  removal is not recorded.
\<close>

lemma removeEntity_inherited_id:
  "(\<exists>d r. applyInput ''A'' 5 5 5 toStringInput (newRoomState ''r1'' None) = Inr (d, r)
       \<and> state r = state roomToString)
   \<and> map_of (entities (state roomToString)) ''toString'' \<noteq> None
   \<and> removeEntity ''toString'' roomToString =
       Inr ([], roomToString\<lparr>state := \<lparr>entities = [], tick = 2, seq = 2\<rparr>\<rparr>)"
  by (simp add: example_defs roomToString_def eval_defs)

section \<open>Emissions of a run of local operations\<close>










end
